theory Spec2Isabelle
  imports Complex_Main
begin

section \<open>The document-search page: state, query lifecycle, upload simulation, rendering\<close>

text \<open>
  This theory embeds the component \<^verbatim>\<open>HomePage\<close> of \<^verbatim>\<open>src/app/page.tsx\<close>: its state
  (the \<^verbatim>\<open>useState\<close> cells), its event handlers and the part of its JSX that renders an
  agent message. Everything the handlers read from outside the component (the clock, the
  random generator, the network reply, the platform's JSON parser) is an explicit argument.
\<close>

subsection \<open>JavaScript values\<close>

text \<open>
  The reply of \<^verbatim>\<open>/api/agent\<close> is untyped (\<^verbatim>\<open>any\<close>), and the handlers copy parts of it
  into the state without checking them, so the values are modelled as what they are at run
  time: JSON values. A JavaScript value is a \<open>json option\<close>, where \<open>None\<close> is
  \<^verbatim>\<open>undefined\<close>. A number of the reply is given by its exact value; a \<open>char\<close> stands for
  a code unit below 256; an object is an association list read with \<open>map_of\<close>.
\<close>

datatype json =
    JNull
  | JBool bool
  | JNum rat
  | JStr string
  | JArr "json list"
  | JObj "(string \<times> json) list"

type_synonym jsval = "json option"

datatype js_error = TypeError | SyntaxError | FetchError

subsection \<open>Numbers\<close>

text \<open>
  A number at run time is NaN, an infinity (\<open>Infinite True\<close> is the negative one) or a
  finite double, given by its exact value. The sign of a zero is not kept: it shows nowhere
  on the page.
\<close>

datatype number = NaN | Infinite bool | Fin rat

text \<open>
  Rounding an exact value to the nearest double, ties to even, as IEEE 754 arithmetic and
  the parser of number literals do: 53 significant bits, exponents from -1022 to 1023,
  gradual underflow below, an infinity from \<open>2 ^ 1024\<close> on.
\<close>

function bit_length :: "int \<Rightarrow> int" where
  "bit_length n = (if n \<le> 0 then 0 else 1 + bit_length (n div 2))"
  by pat_completeness auto
termination
  by (relation "measure nat") auto

declare bit_length.simps [simp del]

definition pow2 :: "int \<Rightarrow> rat" where
  "pow2 k = (if 0 \<le> k then 2 ^ nat k else 1 / 2 ^ nat (- k))"

text \<open>The exponent of the leading bit of a positive value.\<close>

definition ilog2 :: "rat \<Rightarrow> int" where
  "ilog2 a =
     (case quotient_of a of (p, q) \<Rightarrow>
        let d = bit_length p - bit_length q
        in if pow2 d \<le> a then d else d - 1)"

definition round_half_even :: "rat \<Rightarrow> int" where
  "round_half_even s =
     (let f = \<lfloor>s\<rfloor>; r = s - of_int f
      in if r < 1 / 2 then f else if 1 / 2 < r then f + 1 else if even f then f else f + 1)"

definition round_double :: "rat \<Rightarrow> number" where
  "round_double q =
     (if q = 0 then Fin 0
      else
        let a = \<bar>q\<bar>;
            u = max (ilog2 a) (- 1022) - 52;
            v = of_int (round_half_even (a / pow2 u)) * pow2 u
        in if pow2 1024 \<le> v then Infinite (q < 0) else Fin (if q < 0 then - v else v))"

text \<open>
  A number as the double it is at run time: the value itself when it is a double, else the
  double that the parser makes of a literal of that value.
\<close>

definition as_double :: "number \<Rightarrow> number" where
  "as_double a = (case a of Fin x \<Rightarrow> round_double x | _ \<Rightarrow> a)"

text \<open>The product of two doubles.\<close>

fun times_double :: "number \<Rightarrow> number \<Rightarrow> number" where
  "times_double (Fin x) (Fin y) = round_double (x * y)"
| "times_double (Fin x) (Infinite n) = (if x = 0 then NaN else Infinite (n \<noteq> (x < 0)))"
| "times_double (Infinite n) (Fin y) = (if y = 0 then NaN else Infinite (n \<noteq> (y < 0)))"
| "times_double (Infinite n) (Infinite m) = Infinite (n \<noteq> m)"
| "times_double a b = NaN"

text \<open>\<^verbatim>\<open>Math.round\<close> rounds half up; \<^verbatim>\<open>Math.floor\<close> rounds down. Both are exact.\<close>

fun Math_round :: "number \<Rightarrow> number" where
  "Math_round (Fin x) = Fin (of_int \<lfloor>x + 1 / 2\<rfloor>)"
| "Math_round a = a"

fun Math_floor :: "number \<Rightarrow> number" where
  "Math_floor (Fin x) = Fin (of_int \<lfloor>x\<rfloor>)"
| "Math_floor a = a"

subsection \<open>Values and their operators\<close>

text \<open>Truthiness, as the operators \<^verbatim>\<open>&&\<close>, \<^verbatim>\<open>||\<close> and \<^verbatim>\<open>!\<close> test it.\<close>

fun truthy :: "jsval \<Rightarrow> bool" where
  "truthy None = False"
| "truthy (Some JNull) = False"
| "truthy (Some (JBool b)) = b"
| "truthy (Some (JNum n)) = (n \<noteq> 0)"
| "truthy (Some (JStr s)) = (s \<noteq> [])"
| "truthy (Some (JArr xs)) = True"
| "truthy (Some (JObj kvs)) = True"

text \<open>\<^verbatim>\<open>a ?? b\<close>: the right operand replaces \<^verbatim>\<open>undefined\<close> and \<^verbatim>\<open>null\<close> only.\<close>

fun nullish :: "jsval \<Rightarrow> bool" where
  "nullish None = True"
| "nullish (Some JNull) = True"
| "nullish (Some v) = False"

definition coalesce :: "jsval \<Rightarrow> jsval \<Rightarrow> jsval" where
  "coalesce a b = (if nullish a then b else a)"

text \<open>
  Reading a property of a value that is neither \<^verbatim>\<open>undefined\<close> nor \<^verbatim>\<open>null\<close>. Arrays and
  strings own \<^verbatim>\<open>length\<close>; none of the other names this page reads is defined on a
  primitive or on the array prototype.
\<close>

fun member :: "json \<Rightarrow> string \<Rightarrow> jsval" where
  "member (JObj kvs) k = map_of kvs k"
| "member (JArr xs) k = (if k = ''length'' then Some (JNum (of_nat (length xs))) else None)"
| "member (JStr s) k = (if k = ''length'' then Some (JNum (of_nat (length s))) else None)"
| "member v k = None"

text \<open>\<^verbatim>\<open>v.k\<close> throws a TypeError on \<^verbatim>\<open>undefined\<close> and \<^verbatim>\<open>null\<close>; \<^verbatim>\<open>v?.k\<close> gives
  \<^verbatim>\<open>undefined\<close> there.\<close>

definition get_prop :: "jsval \<Rightarrow> string \<Rightarrow> js_error + jsval" where
  "get_prop v k = (case v of None \<Rightarrow> Inl TypeError | Some JNull \<Rightarrow> Inl TypeError | Some j \<Rightarrow> Inr (member j k))"

definition opt_prop :: "jsval \<Rightarrow> string \<Rightarrow> jsval" where
  "opt_prop v k = (case v of None \<Rightarrow> None | Some JNull \<Rightarrow> None | Some j \<Rightarrow> member j k)"

text \<open>
  The numeric conversion that \<^verbatim>\<open>>\<close> and \<^verbatim>\<open>*\<close> apply to an operand. The conversion
  of strings and arrays (which parses numeric text, and throws on some arrays) belongs to
  the platform and is the argument \<open>text_to_num\<close>. A plain object converts to NaN through
  the inherited \<^verbatim>\<open>toString\<close>; if it has a property of that name, which is never a
  function here, the conversion throws.
\<close>

fun ToNumber :: "(json \<Rightarrow> js_error + number) \<Rightarrow> jsval \<Rightarrow> js_error + number" where
  "ToNumber text_to_num None = Inr NaN"
| "ToNumber text_to_num (Some JNull) = Inr (Fin 0)"
| "ToNumber text_to_num (Some (JBool b)) = Inr (Fin (if b then 1 else 0))"
| "ToNumber text_to_num (Some (JNum n)) = Inr (Fin n)"
| "ToNumber text_to_num (Some (JObj kvs)) =
     (if map_of kvs ''toString'' = None then Inr NaN else Inl TypeError)"
| "ToNumber text_to_num (Some v) = text_to_num v"

text \<open>\<^verbatim>\<open>v > 0\<close>: false when \<open>v\<close> converts to NaN.\<close>

definition gt_zero :: "(json \<Rightarrow> js_error + number) \<Rightarrow> jsval \<Rightarrow> js_error + bool" where
  "gt_zero text_to_num v =
     (case ToNumber text_to_num v of
        Inl e \<Rightarrow> Inl e
      | Inr NaN \<Rightarrow> Inr False
      | Inr (Infinite negative) \<Rightarrow> Inr (\<not> negative)
      | Inr (Fin n) \<Rightarrow> Inr (0 < n))"

text \<open>\<^verbatim>\<open>String.prototype.trim\<close> on code units below 256: TAB, LF, VT, FF, CR, SP, NBSP.\<close>

definition js_whitespace :: "char \<Rightarrow> bool" where
  "js_whitespace c = (of_char c \<in> {9, 10, 11, 12, 13, 32, 160 :: nat})"

definition trim :: "string \<Rightarrow> string" where
  "trim s = rev (dropWhile js_whitespace (rev (dropWhile js_whitespace s)))"

text \<open>The decimal text of a non-negative integer, as a template literal prints it.\<close>

definition digit_char :: "nat \<Rightarrow> char" where
  "digit_char d = char_of (48 + d)"

fun dec :: "nat \<Rightarrow> string" where
  "dec n = (if n < 10 then [digit_char n] else dec (n div 10) @ [digit_char (n mod 10)])"

declare dec.simps [simp del]

text \<open>Reading a decimal text back, used to show that \<open>dec\<close> loses nothing.\<close>

definition digit_value :: "char \<Rightarrow> nat" where
  "digit_value ch = of_char ch - 48"

definition decimal_value :: "string \<Rightarrow> nat" where
  "decimal_value s = foldl (\<lambda>a ch. 10 * a + digit_value ch) 0 s"

subsection \<open>The data model (the interfaces of lines 14 to 49)\<close>

record Document =
  doc_id :: string
  doc_name :: string
  doc_size :: nat
  doc_pages :: nat
  doc_uploadDate :: string

text \<open>
  \<^verbatim>\<open>SearchResponse\<close>: every field is optional in the interface and holds whatever the
  reply carried.
\<close>

record SearchResponse =
  answer :: jsval
  citations :: jsval
  documents_referenced :: jsval
  confidence :: jsval
  follow_up_suggestions :: jsval
  metadata :: jsval

datatype msg_type = User | Agent

record ChatMessage =
  msg_id :: string
  msg_type :: msg_type
  msg_content :: jsval
  msg_response :: "SearchResponse option"
  msg_timestamp :: string

text \<open>The \<^verbatim>\<open>useState\<close> cells of the component, and the value of the file input.\<close>

record state =
  documents :: "Document list"
  chatMessages :: "ChatMessage list"
  query :: string
  loading :: bool
  sidebarOpen :: bool
  uploadingFiles :: "string \<rightharpoonup> rat"
  selectedCitation :: jsval
  deleteConfirm :: "string option"
  fileInputValue :: string

definition initial_state :: state where
  "initial_state =
     \<lparr>documents = [], chatMessages = [], query = [], loading = False, sidebarOpen = True,
      uploadingFiles = Map.empty, selectedCitation = None, deleteConfirm = None,
      fileInputValue = []\<rparr>"

subsection \<open>handleQuery (lines 124 to 200)\<close>

text \<open>The one outbound request: a POST to \<^verbatim>\<open>/api/agent\<close> whose body is this object.\<close>

record request =
  req_url :: string
  req_method :: string
  req_body :: json

definition agent_request :: "string \<Rightarrow> request" where
  "agent_request q =
     \<lparr>req_url = ''/api/agent'', req_method = ''POST'',
      req_body = JObj [(''message'', JStr q), (''agent_id'', JStr ''6909a9b15d0b2c2413178b1e'')]\<rparr>"

text \<open>
  What the awaited calls give back: \<^verbatim>\<open>fetch\<close> rejects, or \<^verbatim>\<open>response.json()\<close> rejects
  because the body is not JSON, or the body parses to a value.
\<close>

datatype fetch_outcome = FetchRejected | BodyNotJson | Data json

text \<open>The readings of the clock: \<^verbatim>\<open>Date.now()\<close> and \<^verbatim>\<open>toLocaleTimeString()\<close>.\<close>

record clock =
  now :: nat
  time_string :: string

text \<open>
  The synchronous part, up to the \<^verbatim>\<open>await\<close>: the guard of line 126, the user message,
  and the request that \<^verbatim>\<open>fetch\<close> sends.
\<close>

definition userMessage :: "string \<Rightarrow> clock \<Rightarrow> ChatMessage" where
  "userMessage q c =
     \<lparr>msg_id = ''msg-'' @ dec (now c), msg_type = User, msg_content = Some (JStr q),
      msg_response = None, msg_timestamp = time_string c\<rparr>"

definition submitQuery :: "state \<Rightarrow> clock \<Rightarrow> state \<times> request option" where
  "submitQuery st c =
     (if trim (query st) = [] \<or> loading st then (st, None)
      else (st\<lparr>chatMessages := chatMessages st @ [userMessage (query st) c],
                query := [], loading := True\<rparr>,
            Some (agent_request (query st))))"

text \<open>The default response of lines 151 to 162.\<close>

definition fallback_answer :: string where
  "fallback_answer = ''No documents found matching your query. Please upload documents to get started.''"

definition default_metadata :: json where
  "default_metadata =
     JObj [(''search_queries_used'', JArr []), (''total_passages_retrieved'', JNum 0),
           (''processing_time'', JStr ''0s'')]"

definition default_response :: SearchResponse where
  "default_response =
     \<lparr>answer = Some (JStr fallback_answer), citations = Some (JArr []),
      documents_referenced = Some (JArr []), confidence = Some (JNum 0),
      follow_up_suggestions = Some (JArr []), metadata = Some default_metadata\<rparr>"

text \<open>Lines 165 to 167: a string reply is parsed, anything else is used as it is.\<close>

definition parsedResponse :: "(string \<Rightarrow> json option) \<Rightarrow> json \<Rightarrow> js_error + json" where
  "parsedResponse JSON_parse r =
     (case r of
        JStr s \<Rightarrow> (case JSON_parse s of None \<Rightarrow> Inl SyntaxError | Some p \<Rightarrow> Inr p)
      | _ \<Rightarrow> Inr r)"

text \<open>
  Lines 169 to 176. The six reads throw together, on \<^verbatim>\<open>null\<close> (which only
  \<^verbatim>\<open>JSON.parse\<close> can produce here), or not at all.
\<close>

definition defaulted :: "json \<Rightarrow> js_error + SearchResponse" where
  "defaulted p =
     (if p = JNull then Inl TypeError
      else Inr \<lparr>answer = coalesce (member p ''answer'') (answer default_response),
                citations = coalesce (member p ''citations'') (citations default_response),
                documents_referenced =
                  coalesce (member p ''documents_referenced'') (documents_referenced default_response),
                confidence = coalesce (member p ''confidence'') (confidence default_response),
                follow_up_suggestions =
                  coalesce (member p ''follow_up_suggestions'') (follow_up_suggestions default_response),
                metadata = coalesce (member p ''metadata'') (metadata default_response)\<rparr>)"

text \<open>Lines 151 to 177: the value of \<^verbatim>\<open>agentResponse\<close> when the \<^verbatim>\<open>try\<close> block gets that far.\<close>

definition agentResponse :: "(string \<Rightarrow> json option) \<Rightarrow> json \<Rightarrow> js_error + SearchResponse" where
  "agentResponse JSON_parse data =
     (case get_prop (Some data) ''success'' of
        Inl e \<Rightarrow> Inl e
      | Inr success \<Rightarrow>
          if truthy success then
            (case member data ''response'' of
               None \<Rightarrow> Inr default_response
             | Some r \<Rightarrow>
                 if truthy (Some r) then
                   (case parsedResponse JSON_parse r of
                      Inl e \<Rightarrow> Inl e
                    | Inr p \<Rightarrow> defaulted p)
                 else Inr default_response)
          else Inr default_response)"

definition agentMessage :: "SearchResponse \<Rightarrow> clock \<Rightarrow> ChatMessage" where
  "agentMessage r c =
     \<lparr>msg_id = ''msg-'' @ dec (now c + 1), msg_type = Agent, msg_content = answer r,
      msg_response = Some r, msg_timestamp = time_string c\<rparr>"

definition error_text :: string where
  "error_text = ''An error occurred while processing your query. Please try again.''"

definition errorMessage :: "clock \<Rightarrow> ChatMessage" where
  "errorMessage c =
     \<lparr>msg_id = ''msg-'' @ dec (now c + 1), msg_type = Agent, msg_content = Some (JStr error_text),
      msg_response = None, msg_timestamp = time_string c\<rparr>"

text \<open>The \<^verbatim>\<open>try\<close> block after the awaits: the message it appends, or what it throws.\<close>

definition try_block :: "(string \<Rightarrow> json option) \<Rightarrow> fetch_outcome \<Rightarrow> clock \<Rightarrow> js_error + ChatMessage" where
  "try_block JSON_parse outcome c =
     (case outcome of
        FetchRejected \<Rightarrow> Inl FetchError
      | BodyNotJson \<Rightarrow> Inl SyntaxError
      | Data data \<Rightarrow>
          (case agentResponse JSON_parse data of
             Inl e \<Rightarrow> Inl e
           | Inr r \<Rightarrow> Inr (agentMessage r c)))"

text \<open>
  The continuation once the awaits settle: \<^verbatim>\<open>try\<close>, \<^verbatim>\<open>catch\<close> and \<^verbatim>\<open>finally\<close>. The
  updates are functional (\<^verbatim>\<open>prev => [...prev, m]\<close>), so they act on the state of that moment.
\<close>

definition settleQuery :: "(string \<Rightarrow> json option) \<Rightarrow> state \<Rightarrow> fetch_outcome \<Rightarrow> clock \<Rightarrow> state" where
  "settleQuery JSON_parse st outcome c =
     (case try_block JSON_parse outcome c of
        Inr m \<Rightarrow> st\<lparr>chatMessages := chatMessages st @ [m], loading := False\<rparr>
      | Inl e \<Rightarrow> st\<lparr>chatMessages := chatMessages st @ [errorMessage c], loading := False\<rparr>)"

text \<open>
  One whole call of \<^verbatim>\<open>handleQuery\<close> whose awaits settle: the final state and every request
  the call sent, in order.
\<close>

record query_env =
  submitted_at :: clock
  outcome :: fetch_outcome
  settled_at :: clock

definition handleQuery :: "(string \<Rightarrow> json option) \<Rightarrow> state \<Rightarrow> query_env \<Rightarrow> state \<times> request list" where
  "handleQuery JSON_parse st env =
     (case submitQuery st (submitted_at env) of
        (st1, None) \<Rightarrow> (st1, [])
      | (st1, Some req) \<Rightarrow> (settleQuery JSON_parse st1 (outcome env) (settled_at env), [req]))"

definition handleFollowUp :: "state \<Rightarrow> string \<Rightarrow> state" where
  "handleFollowUp st suggestion = st\<lparr>query := suggestion\<rparr>"

subsection \<open>The simulated upload: handleFileSelect (lines 71 to 113)\<close>

record File =
  file_name :: string
  file_type :: string
  file_size :: nat

text \<open>
  What one pass of the loop body reads from outside: \<^verbatim>\<open>Date.now()\<close> at line 75, the
  value of \<^verbatim>\<open>Math.random()\<close> in each run of the interval callback before the interval is
  cleared, the \<^verbatim>\<open>Math.random()\<close> of line 98, and the date string of line 99.
\<close>

record upload_env =
  started_at :: nat
  ticks :: "rat list"
  page_random :: rat
  upload_date :: string

definition fileId :: "File \<Rightarrow> nat \<Rightarrow> string" where
  "fileId file t = file_name file @ ''-'' @ dec t"

text \<open>Line 76: the progress entry is created at 0.\<close>

definition beginUpload :: "state \<Rightarrow> string \<Rightarrow> state" where
  "beginUpload st fid = st\<lparr>uploadingFiles := (uploadingFiles st)(fid \<mapsto> 0)\<rparr>"

text \<open>
  Lines 80 to 87, the updater of one tick; \<open>r\<close> is the value of \<^verbatim>\<open>Math.random()\<close>.
  \<^verbatim>\<open>prev[fileId] || 0\<close> reads a missing entry as 0. Once the value has reached 90 the
  callback clears the interval and returns the map as it is. The percentage is kept as the
  exact sum.
\<close>

definition progressInterval :: "(string \<rightharpoonup> rat) \<Rightarrow> string \<Rightarrow> rat \<Rightarrow> (string \<rightharpoonup> rat)" where
  "progressInterval prev fid r =
     (let current = (case prev fid of None \<Rightarrow> 0 | Some v \<Rightarrow> v)
      in if current \<ge> 90 then prev else prev(fid \<mapsto> current + r * 40))"

definition tickUpload :: "state \<Rightarrow> string \<Rightarrow> rat \<Rightarrow> state" where
  "tickUpload st fid r = st\<lparr>uploadingFiles := progressInterval (uploadingFiles st) fid r\<rparr>"

text \<open>
  Line 98: \<^verbatim>\<open>Math.floor(Math.random() * 100) + 10\<close>, a product of doubles. A reading of
  \<^verbatim>\<open>Math.random()\<close> is at least 0 and below 1, so the product is finite; the last case
  is for other arguments only.
\<close>

definition pageCount :: "rat \<Rightarrow> nat" where
  "pageCount r =
     (case Math_floor (times_double (as_double (Fin r)) (Fin 100)) of
        Fin x \<Rightarrow> nat \<lfloor>x\<rfloor> + 10
      | _ \<Rightarrow> 0)"

text \<open>Lines 94 to 100.\<close>

definition newDoc :: "File \<Rightarrow> upload_env \<Rightarrow> Document" where
  "newDoc file env =
     \<lparr>doc_id = fileId file (started_at env), doc_name = file_name file, doc_size = file_size file,
      doc_pages = pageCount (page_random env), doc_uploadDate = upload_date env\<rparr>"

text \<open>Lines 102 to 107: the document goes to the head of the list, the entry is deleted.\<close>

definition completeUpload :: "state \<Rightarrow> Document \<Rightarrow> state" where
  "completeUpload st d =
     st\<lparr>documents := d # documents st, uploadingFiles := (uploadingFiles st)(doc_id d := None)\<rparr>"

text \<open>The state while the upload of one file is pending, after the ticks \<open>rs\<close>.\<close>

definition pendingUpload :: "state \<Rightarrow> string \<Rightarrow> rat list \<Rightarrow> state" where
  "pendingUpload st fid rs = foldl (\<lambda>s r. tickUpload s fid r) (beginUpload st fid) rs"

text \<open>One pass of the loop body of lines 74 to 108.\<close>

definition uploadFile :: "state \<Rightarrow> File \<times> upload_env \<Rightarrow> state" where
  "uploadFile st fe =
     (case fe of (file, env) \<Rightarrow>
        completeUpload (pendingUpload st (fileId file (started_at env)) (ticks env)) (newDoc file env))"

text \<open>
  The handler. Each file of the selection comes with the readings its pass would take;
  those of a file that the filter of line 72 drops are never used.
\<close>

definition selectedFiles :: "(File \<times> upload_env) list \<Rightarrow> (File \<times> upload_env) list" where
  "selectedFiles files = filter (\<lambda>fe. file_type (fst fe) = ''application/pdf'') files"

definition handleFileSelect :: "state \<Rightarrow> (File \<times> upload_env) list \<Rightarrow> state" where
  "handleFileSelect st files = (foldl uploadFile st (selectedFiles files))\<lparr>fileInputValue := []\<rparr>"

subsection \<open>Deleting a document (lines 119 to 122, 294 and 492 to 508)\<close>

text \<open>The trash button of a document card, and the dialog closing without the action.\<close>

definition setDeleteConfirm :: "state \<Rightarrow> string option \<Rightarrow> state" where
  "setDeleteConfirm st v = st\<lparr>deleteConfirm := v\<rparr>"

definition handleDeleteDocument :: "state \<Rightarrow> string \<Rightarrow> state" where
  "handleDeleteDocument st docId =
     st\<lparr>documents := filter (\<lambda>doc. doc_id doc \<noteq> docId) (documents st), deleteConfirm := None\<rparr>"

text \<open>
  The \<^verbatim>\<open>onClick\<close> of the dialog's action, line 501:
  \<^verbatim>\<open>deleteConfirm && handleDeleteDocument(deleteConfirm)\<close>; the empty string is falsy.
\<close>

definition confirmDelete :: "state \<Rightarrow> state" where
  "confirmDelete st =
     (case deleteConfirm st of
        None \<Rightarrow> st
      | Some docId \<Rightarrow> if docId = [] then st else handleDeleteDocument st docId)"

text \<open>Lines 206 and 207.\<close>

definition totalSize :: "state \<Rightarrow> nat" where
  "totalSize st = foldl (\<lambda>sum doc. sum + doc_size doc) 0 (documents st)"

definition totalPages :: "state \<Rightarrow> nat" where
  "totalPages st = foldl (\<lambda>sum doc. sum + doc_pages doc) 0 (documents st)"

subsection \<open>Sessions of the document registry\<close>

text \<open>
  The actions that touch the registry. A selection stands at the place where its documents
  are inserted; the timestamps in it are those read when its uploads began.
\<close>

datatype action =
    SelectFiles "(File \<times> upload_env) list"
  | RequestDelete string
  | CancelDelete
  | ConfirmDelete

fun act :: "state \<Rightarrow> action \<Rightarrow> state" where
  "act st (SelectFiles files) = handleFileSelect st files"
| "act st (RequestDelete docId) = setDeleteConfirm st (Some docId)"
| "act st CancelDelete = setDeleteConfirm st None"
| "act st ConfirmDelete = confirmDelete st"

definition session :: "action list \<Rightarrow> state" where
  "session acts = foldl act initial_state acts"

text \<open>The name and timestamp from which each upload of a session derives its identifier.\<close>

fun stamps :: "action \<Rightarrow> (string \<times> nat) list" where
  "stamps (SelectFiles files) = map (\<lambda>fe. (file_name (fst fe), started_at (snd fe))) (selectedFiles files)"
| "stamps a = []"

text \<open>
  The identifier that line 75 derives from a stamp, and the invariant of the registry
  relative to the stamps used so far: the identifiers in the list are pairwise distinct
  and each comes from a stamp that was used.
\<close>

definition stamp_id :: "string \<times> nat \<Rightarrow> string" where
  "stamp_id nt = fst nt @ ''-'' @ dec (snd nt)"

definition registry_ok :: "(string \<times> nat) list \<Rightarrow> state \<Rightarrow> bool" where
  "registry_ok used st \<longleftrightarrow>
     distinct (map doc_id (documents st)) \<and> set (map doc_id (documents st)) \<subseteq> stamp_id ` set used"

subsection \<open>Rendering an agent message (lines 351 to 416)\<close>

text \<open>
  The model builds what the component hands to React: the fragments that are present and
  the values placed in them as children. What React then does with a child is not modelled.

  \<^verbatim>\<open>c && c.length > 0 && (...)\<close> gives nothing to show when the chain stops at
  \<^verbatim>\<open>undefined\<close>, \<^verbatim>\<open>null\<close>, \<^verbatim>\<open>false\<close> or the empty string, the number itself when it
  stops at a falsy number, the fragment otherwise.
\<close>

datatype 'a fragment = Hidden | Leaked json | Shown 'a

definition guarded ::
  "(json \<Rightarrow> js_error + number) \<Rightarrow> jsval \<Rightarrow> (json \<Rightarrow> js_error + 'a) \<Rightarrow> js_error + 'a fragment" where
  "guarded text_to_num c body =
     (case c of
        None \<Rightarrow> Inr Hidden
      | Some j \<Rightarrow>
          if \<not> truthy (Some j) then Inr (case j of JNum n \<Rightarrow> Leaked j | _ \<Rightarrow> Hidden)
          else
            (case gt_zero text_to_num (member j ''length'') of
               Inl e \<Rightarrow> Inl e
             | Inr False \<Rightarrow> Inr Hidden
             | Inr True \<Rightarrow> (case body j of Inl e \<Rightarrow> Inl e | Inr v \<Rightarrow> Inr (Shown v))))"

text \<open>A citation chip shows two properties of the citation and selects it on a click.\<close>

record chip =
  chip_document :: jsval
  chip_page :: jsval
  chip_citation :: json

fun chips :: "json list \<Rightarrow> js_error + chip list" where
  "chips [] = Inr []"
| "chips (citation # rest) =
     (case get_prop (Some citation) ''document_name'' of
        Inl e \<Rightarrow> Inl e
      | Inr d \<Rightarrow>
          (case chips rest of
             Inl e \<Rightarrow> Inl e
           | Inr cs \<Rightarrow>
               Inr (\<lparr>chip_document = d, chip_page = member citation ''page_number'',
                     chip_citation = citation\<rparr> # cs)))"

text \<open>\<^verbatim>\<open>c.map(...)\<close>: only an array has \<^verbatim>\<open>map\<close>.\<close>

definition citation_chips :: "json \<Rightarrow> js_error + chip list" where
  "citation_chips c = (case c of JArr xs \<Rightarrow> chips xs | _ \<Rightarrow> Inl TypeError)"

text \<open>\<^verbatim>\<open>f.slice(0, 3).map(...)\<close>: one button per entry, showing the entry.\<close>

definition follow_up_buttons :: "json \<Rightarrow> js_error + json list" where
  "follow_up_buttons f = (case f of JArr xs \<Rightarrow> Inr (take 3 xs) | _ \<Rightarrow> Inl TypeError)"

definition render_follow_ups :: "(json \<Rightarrow> js_error + number) \<Rightarrow> jsval \<Rightarrow> js_error + json list fragment" where
  "render_follow_ups text_to_num f = guarded text_to_num f follow_up_buttons"

record details =
  sources :: "chip list fragment"
  separator :: "unit fragment"
  confidence_percent :: number
  documents_count :: jsval
  passages_count :: jsval
  follow_ups :: "json list fragment"
  processed_in :: jsval

text \<open>Line 381: \<^verbatim>\<open>Math.round((confidence ?? 0) * 100)\<close>, a product of doubles.\<close>

definition render_confidence :: "(json \<Rightarrow> js_error + number) \<Rightarrow> jsval \<Rightarrow> js_error + number" where
  "render_confidence text_to_num c =
     (case ToNumber text_to_num (coalesce c (Some (JNum 0))) of
        Inl e \<Rightarrow> Inl e
      | Inr n \<Rightarrow> Inr (Math_round (times_double (as_double n) (Fin 100))))"

text \<open>Lines 357 to 412, in the order of the source.\<close>

definition render_response :: "(json \<Rightarrow> js_error + number) \<Rightarrow> SearchResponse \<Rightarrow> js_error + details" where
  "render_response text_to_num r =
     (case guarded text_to_num (citations r) citation_chips of
        Inl e \<Rightarrow> Inl e
      | Inr src \<Rightarrow>
          (case guarded text_to_num (citations r) (\<lambda>c. Inr ()) of
             Inl e \<Rightarrow> Inl e
           | Inr sep \<Rightarrow>
               (case render_confidence text_to_num (confidence r) of
                  Inl e \<Rightarrow> Inl e
                | Inr pct \<Rightarrow>
                    (case render_follow_ups text_to_num (follow_up_suggestions r) of
                       Inl e \<Rightarrow> Inl e
                     | Inr fu \<Rightarrow>
                         Inr \<lparr>sources = src, separator = sep, confidence_percent = pct,
                              documents_count =
                                coalesce (opt_prop (documents_referenced r) ''length'') (Some (JNum 0)),
                              passages_count =
                                coalesce (opt_prop (metadata r) ''total_passages_retrieved'') (Some (JNum 0)),
                              follow_ups = fu,
                              processed_in =
                                coalesce (opt_prop (metadata r) ''processing_time'') (Some (JStr ''0s''))\<rparr>))))"

text \<open>A message of the list: the user's bubble, or the agent's card with its details.\<close>

datatype bubble = UserBubble jsval string | AgentCard jsval "details option"

definition render_message :: "(json \<Rightarrow> js_error + number) \<Rightarrow> ChatMessage \<Rightarrow> js_error + bubble" where
  "render_message text_to_num m =
     (if msg_type m = User then Inr (UserBubble (msg_content m) (msg_timestamp m))
      else (case msg_response m of
              None \<Rightarrow> Inr (AgentCard (msg_content m) None)
            | Some r \<Rightarrow>
                (case render_response text_to_num r of
                   Inl e \<Rightarrow> Inl e
                 | Inr d \<Rightarrow> Inr (AgentCard (msg_content m) (Some d)))))"

text \<open>The entries of a fragment that is shown.\<close>

fun entries :: "'a list fragment \<Rightarrow> 'a list" where
  "entries (Shown xs) = xs"
| "entries s = []"

section \<open>Properties\<close>

subsection \<open>Strings: trimming and decimal text\<close>

lemma digit_value_digit_char: "d < 10 \<Longrightarrow> digit_value (digit_char d) = d"
  by (simp add: digit_value_def digit_char_def)

lemma digit_char_not_dash: "d < 10 \<Longrightarrow> digit_char d \<noteq> CHR ''-''"
proof
  assume d: "d < 10" and eq: "digit_char d = CHR ''-''"
  from eq have "of_char (digit_char d) = (of_char (CHR ''-'') :: nat)" by simp
  with d show False by (simp add: digit_char_def)
qed

lemma decimal_value_dec: "decimal_value (dec n) = n"
proof (induction n rule: dec.induct)
  case (1 n)
  show ?case
  proof (cases "n < 10")
    case True
    then show ?thesis
      by (simp add: dec.simps [of n] decimal_value_def digit_value_digit_char)
  next
    case False
    with 1 have "decimal_value (dec (n div 10)) = n div 10" by simp
    with False show ?thesis
      by (simp add: dec.simps [of n] decimal_value_def digit_value_digit_char)
  qed
qed

lemma dec_inj: "dec n = dec m \<Longrightarrow> n = m"
  by (metis decimal_value_dec)

lemma dash_notin_dec: "CHR ''-'' \<notin> set (dec n)"
proof (induction n rule: dec.induct)
  case (1 n)
  show ?case
  proof (cases "n < 10")
    case True
    then show ?thesis
      using digit_char_not_dash [of n] by (auto simp: dec.simps [of n])
  next
    case False
    with 1 have "CHR ''-'' \<notin> set (dec (n div 10))" by simp
    moreover have "digit_char (n mod 10) \<noteq> CHR ''-''"
      by (rule digit_char_not_dash) simp
    ultimately show ?thesis using False
      by (auto simp: dec.simps [of n])
  qed
qed

lemma split_at_last:
  "x \<notin> set s \<Longrightarrow> x \<notin> set t \<Longrightarrow> a @ x # s = b @ x # t \<Longrightarrow> a = b \<and> s = t"
proof (induction a arbitrary: b)
  case Nil
  then show ?case by (cases b) auto
next
  case (Cons y a)
  then show ?case by (cases b) auto
qed

lemma fileId_inj:
  assumes "fileId f t = fileId g u"
  shows "file_name f = file_name g \<and> t = u"
  using split_at_last [OF dash_notin_dec dash_notin_dec, of "file_name f" t "file_name g" u] assms dec_inj
  by (auto simp: fileId_def)

lemma trim_empty_iff: "trim s = [] \<longleftrightarrow> (\<forall>ch\<in>set s. js_whitespace ch)"
proof
  assume "trim s = []"
  then have all: "\<forall>ch\<in>set (dropWhile js_whitespace s). js_whitespace ch"
    by (simp add: trim_def)
  have "dropWhile js_whitespace s = []"
  proof (rule ccontr)
    assume ne: "dropWhile js_whitespace s \<noteq> []"
    then have "\<not> js_whitespace (hd (dropWhile js_whitespace s))" by (rule hd_dropWhile)
    moreover from ne have "hd (dropWhile js_whitespace s) \<in> set (dropWhile js_whitespace s)" by simp
    ultimately show False using all by blast
  qed
  then show "\<forall>ch\<in>set s. js_whitespace ch" by simp
next
  assume "\<forall>ch\<in>set s. js_whitespace ch"
  then show "trim s = []" by (auto simp: trim_def dest: set_dropWhileD)
qed

subsection \<open>The query lifecycle\<close>

text \<open>
  C1. In every state in which a request is in flight (\<open>loading\<close>) or the text of the input
  is empty or consists of whitespace only, \<^verbatim>\<open>handleQuery\<close> does nothing: the state it
  leaves is the state it found (so no message is appended and the flag is as it was) and it
  sends no request.
\<close>

theorem handleQuery_noop:
  assumes "loading st \<or> (\<forall>ch\<in>set (query st). js_whitespace ch)"
  shows "submitQuery st c = (st, None) \<and> handleQuery JSON_parse st env = (st, [])"
proof -
  from assms have "trim (query st) = [] \<or> loading st"
    by (auto simp: trim_empty_iff)
  then have "submitQuery st c = (st, None)" for c
    by (simp add: submitQuery_def)
  then show ?thesis
    by (simp add: handleQuery_def)
qed

theorem handleQuery_noop_witness:
  "(loading (initial_state\<lparr>query := [CHR '' '', CHR 0x09], loading := False\<rparr>)
      \<or> (\<forall>ch\<in>set (query (initial_state\<lparr>query := [CHR '' '', CHR 0x09], loading := False\<rparr>)). js_whitespace ch))
   \<and> handleQuery (\<lambda>s. None) (initial_state\<lparr>query := [CHR '' '', CHR 0x09], loading := False\<rparr>)
        \<lparr>submitted_at = \<lparr>now = 7, time_string = ''10:00:00''\<rparr>, outcome = FetchRejected,
         settled_at = \<lparr>now = 9, time_string = ''10:00:01''\<rparr>\<rparr>
      = (initial_state\<lparr>query := [CHR '' '', CHR 0x09], loading := False\<rparr>, [])"
  using handleQuery_noop [of "initial_state\<lparr>query := [CHR '' '', CHR 0x09], loading := False\<rparr>"
      "\<lparr>now = 7, time_string = ''10:00:00''\<rparr>" "\<lambda>s. None"
      "\<lparr>submitted_at = \<lparr>now = 7, time_string = ''10:00:00''\<rparr>, outcome = FetchRejected,
         settled_at = \<lparr>now = 9, time_string = ''10:00:01''\<rparr>\<rparr>"]
  by (simp add: js_whitespace_def)

lemma try_block_throws:
  assumes "out = FetchRejected \<or> out = BodyNotJson
     \<or> (\<exists>data s. out = Data data \<and> truthy (member data ''success'')
           \<and> member data ''response'' = Some (JStr s) \<and> s \<noteq> [] \<and> JSON_parse s = None)"
  shows "\<exists>e. try_block JSON_parse out c = Inl e"
  using assms
  by (auto simp: try_block_def agentResponse_def get_prop_def parsedResponse_def split: json.splits)

text \<open>
  C4. When the transport fails (\<^verbatim>\<open>fetch\<close> rejects) or parsing fails (the body is not
  JSON, or the reply's string \<^verbatim>\<open>response\<close> is not JSON), a query that was accepted ends
  with exactly one message after the user's: an agent message with the fixed error text and
  no structured response. The flag is cleared, and the request of the submission is the only
  one sent.
\<close>

theorem query_failure_recovered:
  assumes fail: "out = FetchRejected \<or> out = BodyNotJson
     \<or> (\<exists>data s. out = Data data \<and> truthy (member data ''success'')
           \<and> member data ''response'' = Some (JStr s) \<and> s \<noteq> [] \<and> JSON_parse s = None)"
    and idle: "\<not> loading st" and typed: "trim (query st) \<noteq> []" and env: "outcome env = out"
  shows "handleQuery JSON_parse st env =
           (st\<lparr>chatMessages := chatMessages st
                   @ [userMessage (query st) (submitted_at env), errorMessage (settled_at env)],
                query := [], loading := False\<rparr>,
            [agent_request (query st)])
         \<and> msg_type (errorMessage (settled_at env)) = Agent
         \<and> msg_content (errorMessage (settled_at env)) =
             Some (JStr ''An error occurred while processing your query. Please try again.'')
         \<and> msg_response (errorMessage (settled_at env)) = None"
proof -
  obtain e where "try_block JSON_parse out (settled_at env) = Inl e"
    using try_block_throws [OF fail] by blast
  then have "settleQuery JSON_parse s1 out (settled_at env) =
      s1\<lparr>chatMessages := chatMessages s1 @ [errorMessage (settled_at env)], loading := False\<rparr>" for s1
    by (simp add: settleQuery_def)
  then show ?thesis
    using idle typed env
    by (simp add: handleQuery_def submitQuery_def errorMessage_def error_text_def)
qed

theorem query_failure_recovered_witness:
  "handleQuery (\<lambda>s. None) (initial_state\<lparr>query := ''hi''\<rparr>)
     \<lparr>submitted_at = \<lparr>now = 7, time_string = ''10:00:00''\<rparr>, outcome = FetchRejected,
      settled_at = \<lparr>now = 9, time_string = ''10:00:01''\<rparr>\<rparr>
   = (initial_state\<lparr>chatMessages :=
          [userMessage ''hi'' \<lparr>now = 7, time_string = ''10:00:00''\<rparr>,
           errorMessage \<lparr>now = 9, time_string = ''10:00:01''\<rparr>],
        query := [], loading := False\<rparr>,
      [agent_request ''hi''])"
proof -
  have idle: "\<not> loading (initial_state\<lparr>query := ''hi''\<rparr>)"
    by (simp add: initial_state_def)
  have typed: "trim (query (initial_state\<lparr>query := ''hi''\<rparr>)) \<noteq> []"
    by (simp add: trim_def js_whitespace_def)
  have fail: "FetchRejected = FetchRejected \<or> FetchRejected = BodyNotJson
     \<or> (\<exists>data s. FetchRejected = Data data \<and> truthy (member data ''success'')
           \<and> member data ''response'' = Some (JStr s) \<and> s \<noteq> [] \<and> (\<lambda>s. None) s = None)"
    by simp
  show ?thesis
    using query_failure_recovered [OF fail idle typed,
        of "\<lparr>submitted_at = \<lparr>now = 7, time_string = ''10:00:00''\<rparr>, outcome = FetchRejected,
             settled_at = \<lparr>now = 9, time_string = ''10:00:01''\<rparr>\<rparr>"]
    by (simp add: initial_state_def)
qed

lemma agentResponse_fallback:
  assumes "data \<noteq> JNull"
    and "\<not> truthy (member data ''success'') \<or> \<not> truthy (member data ''response'')"
  shows "agentResponse JSON_parse data = Inr default_response"
  using assms
  by (cases data) (auto simp: agentResponse_def get_prop_def split: option.splits)

text \<open>
  C3. When the reply says \<^verbatim>\<open>success: false\<close> or has no \<^verbatim>\<open>response\<close>, the agent message
  that is appended carries the fixed fallback answer and the all-default response: no
  citations, no referenced documents, confidence 0, no suggestions, and the default metadata.
  The reply is any JSON value but \<^verbatim>\<open>null\<close>, on which reading \<^verbatim>\<open>success\<close> throws.
\<close>

theorem fallback_reply:
  assumes "data \<noteq> JNull"
    and "member data ''success'' = Some (JBool False) \<or> member data ''response'' = None"
  shows "settleQuery JSON_parse st (Data data) c =
           st\<lparr>chatMessages := chatMessages st @ [agentMessage default_response c], loading := False\<rparr>
         \<and> msg_type (agentMessage default_response c) = Agent
         \<and> msg_content (agentMessage default_response c) =
             Some (JStr ''No documents found matching your query. Please upload documents to get started.'')
         \<and> msg_response (agentMessage default_response c) =
             Some \<lparr>answer = Some (JStr ''No documents found matching your query. Please upload documents to get started.''),
                   citations = Some (JArr []), documents_referenced = Some (JArr []),
                   confidence = Some (JNum 0), follow_up_suggestions = Some (JArr []),
                   metadata = Some (JObj [(''search_queries_used'', JArr []),
                                          (''total_passages_retrieved'', JNum 0),
                                          (''processing_time'', JStr ''0s'')])\<rparr>"
proof -
  from assms(2) have "\<not> truthy (member data ''success'') \<or> \<not> truthy (member data ''response'')"
    by auto
  with assms(1) have "agentResponse JSON_parse data = Inr default_response"
    by (rule agentResponse_fallback)
  then have "settleQuery JSON_parse st (Data data) c =
      st\<lparr>chatMessages := chatMessages st @ [agentMessage default_response c], loading := False\<rparr>"
    by (simp add: settleQuery_def try_block_def)
  then show ?thesis
    by (simp add: agentMessage_def default_response_def fallback_answer_def default_metadata_def)
qed

theorem fallback_reply_witness:
  "settleQuery (\<lambda>s. None) (initial_state\<lparr>loading := True\<rparr>)
       (Data (JObj [(''success'', JBool False)])) \<lparr>now = 9, time_string = ''10:00:01''\<rparr>
     = initial_state\<lparr>loading := True,
         chatMessages := [agentMessage default_response \<lparr>now = 9, time_string = ''10:00:01''\<rparr>],
         loading := False\<rparr>"
proof -
  have a: "JObj [(''success'', JBool False)] \<noteq> JNull" by simp
  have b: "member (JObj [(''success'', JBool False)]) ''success'' = Some (JBool False)
      \<or> member (JObj [(''success'', JBool False)]) ''response'' = None" by simp
  show ?thesis
    using fallback_reply [OF a b, of "\<lambda>s. None" "initial_state\<lparr>loading := True\<rparr>"
        "\<lparr>now = 9, time_string = ''10:00:01''\<rparr>"]
    by (simp add: initial_state_def)
qed

lemma defaulted_missing:
  assumes "p \<noteq> JNull"
    and "member p ''answer'' = None" "member p ''citations'' = None"
    and "member p ''documents_referenced'' = None" "member p ''confidence'' = None"
    and "member p ''follow_up_suggestions'' = None" "member p ''metadata'' = None"
  shows "defaulted p = Inr default_response"
  using assms by (simp add: defaulted_def coalesce_def)

lemma render_confidence_zero: "render_confidence text_to_num (Some (JNum 0)) = Inr (Fin 0)"
proof -
  have "\<lfloor>(1::rat) / 2\<rfloor> = 0" by (simp add: floor_eq_iff)
  then show ?thesis
    by (simp add: render_confidence_def coalesce_def as_double_def round_double_def)
qed

lemma render_default_response:
  "render_response text_to_num default_response =
     Inr \<lparr>sources = Hidden, separator = Hidden, confidence_percent = Fin 0,
          documents_count = Some (JNum 0), passages_count = Some (JNum 0),
          follow_ups = Hidden, processed_in = Some (JStr ''0s'')\<rparr>"
  by (simp add: render_response_def default_response_def default_metadata_def guarded_def
      render_follow_ups_def render_confidence_zero gt_zero_def coalesce_def opt_prop_def)

text \<open>
  C2. When the reply has a truthy \<^verbatim>\<open>success\<close> and its parsed response has none of the six
  recognised fields, the agent message carries the default response, and its card shows the
  fallback answer, confidence 0%, 0 documents, 0 passages, the processing time \<^verbatim>\<open>0s\<close>, no
  citation chips and no follow-up list: every value on display is defined.
\<close>

theorem missing_fields_render_defaults:
  assumes "truthy (member data ''success'')"
    and "member data ''response'' = Some r" and "truthy (Some r)"
    and "parsedResponse JSON_parse r = Inr p" and "p \<noteq> JNull"
    and "member p ''answer'' = None" and "member p ''citations'' = None"
    and "member p ''documents_referenced'' = None" and "member p ''confidence'' = None"
    and "member p ''follow_up_suggestions'' = None" and "member p ''metadata'' = None"
  shows "settleQuery JSON_parse st (Data data) c =
           st\<lparr>chatMessages := chatMessages st @ [agentMessage default_response c], loading := False\<rparr>
         \<and> render_message text_to_num (agentMessage default_response c) =
             Inr (AgentCard
                   (Some (JStr ''No documents found matching your query. Please upload documents to get started.''))
                   (Some \<lparr>sources = Hidden, separator = Hidden, confidence_percent = Fin 0,
                          documents_count = Some (JNum 0), passages_count = Some (JNum 0),
                          follow_ups = Hidden, processed_in = Some (JStr ''0s'')\<rparr>))"
proof -
  have "defaulted p = Inr default_response"
    using assms(5-11) by (rule defaulted_missing)
  moreover have "data \<noteq> JNull" using assms(1) by auto
  ultimately have "agentResponse JSON_parse data = Inr default_response"
    using assms(1-4) by (cases data) (simp_all add: agentResponse_def get_prop_def)
  then have "settleQuery JSON_parse st (Data data) c =
      st\<lparr>chatMessages := chatMessages st @ [agentMessage default_response c], loading := False\<rparr>"
    by (simp add: settleQuery_def try_block_def)
  moreover have "render_message text_to_num (agentMessage default_response c) =
             Inr (AgentCard
                   (Some (JStr ''No documents found matching your query. Please upload documents to get started.''))
                   (Some \<lparr>sources = Hidden, separator = Hidden, confidence_percent = Fin 0,
                          documents_count = Some (JNum 0), passages_count = Some (JNum 0),
                          follow_ups = Hidden, processed_in = Some (JStr ''0s'')\<rparr>))"
    by (simp add: render_message_def agentMessage_def render_default_response)
       (simp add: default_response_def fallback_answer_def)
  ultimately show ?thesis by simp
qed

theorem missing_fields_render_defaults_witness:
  "settleQuery (\<lambda>s. None) (initial_state\<lparr>loading := True\<rparr>)
       (Data (JObj [(''success'', JBool True), (''response'', JObj [])]))
       \<lparr>now = 9, time_string = ''10:00:01''\<rparr>
     = initial_state\<lparr>loading := True,
         chatMessages := [agentMessage default_response \<lparr>now = 9, time_string = ''10:00:01''\<rparr>],
         loading := False\<rparr>
   \<and> render_message (\<lambda>v. Inr NaN) (agentMessage default_response \<lparr>now = 9, time_string = ''10:00:01''\<rparr>) =
       Inr (AgentCard
             (Some (JStr ''No documents found matching your query. Please upload documents to get started.''))
             (Some \<lparr>sources = Hidden, separator = Hidden, confidence_percent = Fin 0,
                    documents_count = Some (JNum 0), passages_count = Some (JNum 0),
                    follow_ups = Hidden, processed_in = Some (JStr ''0s'')\<rparr>))"
proof -
  let ?data = "JObj [(''success'', JBool True), (''response'', JObj [])]"
  have h: "truthy (member ?data ''success'')" "member ?data ''response'' = Some (JObj [])"
    "truthy (Some (JObj []))" "parsedResponse (\<lambda>s. None) (JObj []) = Inr (JObj [])"
    "JObj [] \<noteq> JNull" "member (JObj []) ''answer'' = None" "member (JObj []) ''citations'' = None"
    "member (JObj []) ''documents_referenced'' = None" "member (JObj []) ''confidence'' = None"
    "member (JObj []) ''follow_up_suggestions'' = None" "member (JObj []) ''metadata'' = None"
    by (simp_all add: parsedResponse_def)
  show ?thesis
    using missing_fields_render_defaults [OF h, of "initial_state\<lparr>loading := True\<rparr>"
        "\<lparr>now = 9, time_string = ''10:00:01''\<rparr>" "\<lambda>v. Inr NaN"]
    by (simp add: initial_state_def)
qed



subsection \<open>The upload simulation\<close>

text \<open>
  A tick never lowers the value of an entry, and the value stays below 130: a tick adds
  less than 40 to a value below 90.
\<close>

lemma progressInterval_monotone:
  assumes "0 \<le> r" and "prev fid = Some v"
  shows "\<exists>w. progressInterval prev fid r fid = Some w \<and> v \<le> w"
  using assms by (simp add: progressInterval_def Let_def)

lemma progressInterval_bound:
  assumes "0 \<le> r" "r < 1" and "prev fid = Some v" "v < 130"
  shows "\<exists>w. progressInterval prev fid r fid = Some w \<and> w < 130"
  using assms by (auto simp: progressInterval_def Let_def)

text \<open>
  C5. The claim is that a tick never lowers the value (which holds, above) and that the
  value never exceeds 90 before completion. The callback tests the value before it adds
  the increment and does not clamp the sum: three ticks with \<^verbatim>\<open>Math.random()\<close> at 0.8
  take a new entry from 0 to 32, 64 and 96, and the entry is still pending.
\<close>

theorem progress_passes_90:
  "uploadingFiles (pendingUpload initial_state ''a.pdf-1000'' [4/5, 4/5, 4/5]) ''a.pdf-1000'' = Some 96
   \<and> progressInterval [''a.pdf-1000'' \<mapsto> 64] ''a.pdf-1000'' (4/5) ''a.pdf-1000'' = Some 96"
  by (simp add: pendingUpload_def beginUpload_def tickUpload_def progressInterval_def initial_state_def)

lemma selectedFiles_none:
  assumes "\<forall>fe\<in>set files. file_type (fst fe) \<noteq> ''application/pdf''"
  shows "selectedFiles files = []"
  using assms by (simp add: selectedFiles_def)

text \<open>
  C7. A selection in which no file has the type \<^verbatim>\<open>application/pdf\<close> leaves the document
  list and the progress map as they were.
\<close>

theorem non_pdf_selection_ignored:
  assumes "\<forall>fe\<in>set files. file_type (fst fe) \<noteq> ''application/pdf''"
  shows "documents (handleFileSelect st files) = documents st
       \<and> uploadingFiles (handleFileSelect st files) = uploadingFiles st"
  using selectedFiles_none [OF assms] by (simp add: handleFileSelect_def)

theorem non_pdf_selection_ignored_witness:
  "documents (handleFileSelect initial_state
      [(\<lparr>file_name = ''notes.txt'', file_type = ''text/plain'', file_size = 12\<rparr>,
        \<lparr>started_at = 1000, ticks = [1/2], page_random = 1/3, upload_date = ''1/1/2026''\<rparr>)])
     = documents initial_state
   \<and> uploadingFiles (handleFileSelect initial_state
      [(\<lparr>file_name = ''notes.txt'', file_type = ''text/plain'', file_size = 12\<rparr>,
        \<lparr>started_at = 1000, ticks = [1/2], page_random = 1/3, upload_date = ''1/1/2026''\<rparr>)])
     = uploadingFiles initial_state"
proof -
  have h: "\<forall>fe\<in>set [(\<lparr>file_name = ''notes.txt'', file_type = ''text/plain'', file_size = 12\<rparr>,
        \<lparr>started_at = 1000, ticks = [1/2], page_random = 1/3, upload_date = ''1/1/2026''\<rparr>)].
      file_type (fst fe) \<noteq> ''application/pdf''"
    by simp
  show ?thesis
    using non_pdf_selection_ignored [OF h, of initial_state] by simp
qed

subsection \<open>Deleting\<close>

text \<open>
  Asking for the confirmation (\<^verbatim>\<open>setDeleteConfirm\<close>) leaves the document list as it is.
  \<^verbatim>\<open>handleDeleteDocument\<close> removes a document and keeps all the others, in their order,
  when no other document has its identifier.
\<close>

lemma request_keeps_documents: "documents (setDeleteConfirm st v) = documents st"
  by (simp add: setDeleteConfirm_def)

lemma delete_unique:
  assumes "documents st = before @ d # after"
    and "\<forall>doc\<in>set (before @ after). doc_id doc \<noteq> doc_id d"
  shows "documents (setDeleteConfirm st v) = documents st
       \<and> documents (handleDeleteDocument st (doc_id d)) = before @ after"
  using assms by (simp add: setDeleteConfirm_def handleDeleteDocument_def filter_id_conv)

text \<open>The two steps through the dialog: the trash button, then the action of the dialog.\<close>

lemma delete_flow:
  assumes "documents st = before @ d # after"
    and "\<forall>doc\<in>set (before @ after). doc_id doc \<noteq> doc_id d" and "doc_id d \<noteq> []"
  shows "documents (confirmDelete (setDeleteConfirm st (Some (doc_id d)))) = before @ after"
  using assms by (simp add: setDeleteConfirm_def handleDeleteDocument_def confirmDelete_def filter_id_conv)

subsection \<open>Identifiers in the registry\<close>

lemma documents_pendingUpload: "documents (pendingUpload st fid rs) = documents st"
proof -
  have "documents (foldl (\<lambda>s r. tickUpload s fid r) s0 rs) = documents s0" for s0
    by (induction rs arbitrary: s0) (simp_all add: tickUpload_def)
  then show ?thesis by (simp add: pendingUpload_def beginUpload_def)
qed

lemma documents_uploadFile:
  "documents (uploadFile st fe) = newDoc (fst fe) (snd fe) # documents st"
  by (cases fe) (simp add: uploadFile_def completeUpload_def documents_pendingUpload)

lemma documents_uploads:
  "documents (foldl uploadFile st fes) = rev (map (\<lambda>fe. newDoc (fst fe) (snd fe)) fes) @ documents st"
  by (induction fes arbitrary: st) (simp_all add: documents_uploadFile)

lemma stamp_id_inj: "inj stamp_id"
proof (rule injI)
  fix a b :: "string \<times> nat"
  assume "stamp_id a = stamp_id b"
  then have "fst a @ CHR ''-'' # dec (snd a) = fst b @ CHR ''-'' # dec (snd b)"
    by (simp add: stamp_id_def)
  then have "fst a = fst b \<and> dec (snd a) = dec (snd b)"
    using split_at_last [OF dash_notin_dec dash_notin_dec] by blast
  then show "a = b" by (auto simp: prod_eq_iff dest: dec_inj)
qed

lemma ids_handleFileSelect:
  "map doc_id (documents (handleFileSelect st files)) =
     rev (map stamp_id (stamps (SelectFiles files))) @ map doc_id (documents st)"
  by (simp add: handleFileSelect_def documents_uploads rev_map newDoc_def fileId_def stamp_id_def comp_def)

lemma ids_act_other:
  assumes "\<And>files. a \<noteq> SelectFiles files"
  shows "\<exists>P. documents (act st a) = filter P (documents st)"
proof (cases a)
  case (SelectFiles files)
  with assms show ?thesis by blast
next
  case (RequestDelete docId)
  have "documents (act st a) = filter (\<lambda>d. True) (documents st)"
    using RequestDelete by (simp add: setDeleteConfirm_def)
  then show ?thesis by blast
next
  case CancelDelete
  have "documents (act st a) = filter (\<lambda>d. True) (documents st)"
    using CancelDelete by (simp add: setDeleteConfirm_def)
  then show ?thesis by blast
next
  case ConfirmDelete
  show ?thesis
  proof (cases "deleteConfirm st")
    case None
    have "documents (act st a) = filter (\<lambda>d. True) (documents st)"
      using ConfirmDelete None by (simp add: confirmDelete_def)
    then show ?thesis by blast
  next
    case (Some docId)
    show ?thesis
    proof (cases "docId = []")
      case True
      have "documents (act st a) = filter (\<lambda>d. True) (documents st)"
        using ConfirmDelete Some True by (simp add: confirmDelete_def)
      then show ?thesis by blast
    next
      case False
      have "documents (act st a) = filter (\<lambda>doc. doc_id doc \<noteq> docId) (documents st)"
        using ConfirmDelete Some False by (simp add: confirmDelete_def handleDeleteDocument_def)
      then show ?thesis by blast
    qed
  qed
qed

lemma registry_ok_act:
  assumes ok: "registry_ok used st" and fresh: "distinct (used @ stamps a)"
  shows "registry_ok (used @ stamps a) (act st a)"
proof (cases "\<exists>files. a = SelectFiles files")
  case True
  then obtain files where a: "a = SelectFiles files" by blast
  let ?new = "map stamp_id (stamps a)"
  have ids: "map doc_id (documents (act st a)) = rev ?new @ map doc_id (documents st)"
    using a by (simp add: ids_handleFileSelect)
  have "inj_on stamp_id (set (stamps a))"
    using stamp_id_inj by (rule inj_on_subset) simp
  then have d1: "distinct ?new"
    using fresh by (simp add: distinct_map)
  have "set (stamps a) \<inter> set used = {}"
    using fresh by auto
  then have "stamp_id ` set (stamps a) \<inter> stamp_id ` set used = {}"
    using stamp_id_inj by (metis image_Int image_empty)
  moreover have "set (map doc_id (documents st)) \<subseteq> stamp_id ` set used"
    using ok by (simp add: registry_ok_def)
  moreover have "set ?new = stamp_id ` set (stamps a)" by simp
  ultimately have d2: "set ?new \<inter> set (map doc_id (documents st)) = {}"
    by blast
  show ?thesis
    using ok d1 d2 by (auto simp: registry_ok_def ids)
next
  case False
  then have "\<And>files. a \<noteq> SelectFiles files" by blast
  then obtain P where P: "documents (act st a) = filter P (documents st)"
    using ids_act_other by blast
  from False have "stamps a = []" by (cases a) auto
  then show ?thesis
    using ok by (auto simp: registry_ok_def P distinct_map_filter)
qed

lemma registry_ok_session:
  "distinct (concat (map stamps acts)) \<Longrightarrow>
     registry_ok (concat (map stamps acts)) (foldl act initial_state acts)"
proof (induction acts rule: rev_induct)
  case Nil
  then show ?case by (simp add: registry_ok_def initial_state_def)
next
  case (snoc a acts)
  then have "registry_ok (concat (map stamps acts)) (foldl act initial_state acts)"
    by simp
  moreover from snoc.prems have "distinct (concat (map stamps acts) @ stamps a)" by simp
  ultimately show ?case
    using registry_ok_act by simp
qed

subsection \<open>Deleting a document of the registry\<close>

lemma registry_ids_nonempty:
  assumes "registry_ok used st" and "d \<in> set (documents st)"
  shows "doc_id d \<noteq> []"
proof -
  from assms have "doc_id d \<in> stamp_id ` set used"
    by (auto simp: registry_ok_def)
  then show ?thesis by (auto simp: stamp_id_def)
qed

text \<open>
  C8, as the code has it. The confirm action removes by identifier: every document whose
  identifier is the given one goes. In a session in which no two uploads pair the same file
  name with the same reading of the clock, that is one document: asking for the
  confirmation leaves the list as it is, and the confirm action that follows, like
  \<^verbatim>\<open>handleDeleteDocument\<close> itself, removes exactly the document asked for and keeps
  all the others, in their order.
\<close>

theorem delete_in_session:
  assumes stamps: "distinct (concat (map stamps acts))"
    and docs: "documents (session acts) = before @ d # after"
  shows "documents (setDeleteConfirm (session acts) v) = documents (session acts)
       \<and> documents (session (acts @ [RequestDelete (doc_id d)])) = documents (session acts)
       \<and> documents (handleDeleteDocument (session acts) (doc_id d)) = before @ after
       \<and> documents (session (acts @ [RequestDelete (doc_id d), ConfirmDelete])) = before @ after"
proof -
  have ok: "registry_ok (concat (map stamps acts)) (session acts)"
    using registry_ok_session [OF stamps] by (simp add: session_def)
  then have "distinct (map doc_id (before @ d # after))"
    using docs by (simp add: registry_ok_def)
  then have others: "\<forall>doc\<in>set (before @ after). doc_id doc \<noteq> doc_id d"
    by (fastforce simp: image_iff)
  have "d \<in> set (documents (session acts))"
    using docs by simp
  with ok have named: "doc_id d \<noteq> []"
    by (rule registry_ids_nonempty)
  have request: "session (acts @ [RequestDelete (doc_id d)]) =
      setDeleteConfirm (session acts) (Some (doc_id d))"
    by (simp add: session_def)
  have confirm: "session (acts @ [RequestDelete (doc_id d), ConfirmDelete]) =
      confirmDelete (setDeleteConfirm (session acts) (Some (doc_id d)))"
    by (simp add: session_def)
  show ?thesis
    using delete_unique [OF docs others] delete_flow [OF docs others named]
    by (simp add: request confirm)
qed

theorem delete_in_session_witness:
  "documents (session
     [SelectFiles [(\<lparr>file_name = ''a.pdf'', file_type = ''application/pdf'', file_size = 10\<rparr>,
                    \<lparr>started_at = 1000, ticks = [1/2], page_random = 1/4, upload_date = ''1/1/2026''\<rparr>)],
      SelectFiles [(\<lparr>file_name = ''b.pdf'', file_type = ''application/pdf'', file_size = 20\<rparr>,
                    \<lparr>started_at = 3000, ticks = [1/2], page_random = 1/2, upload_date = ''1/1/2026''\<rparr>)],
      RequestDelete (doc_id (newDoc \<lparr>file_name = ''a.pdf'', file_type = ''application/pdf'', file_size = 10\<rparr>
                    \<lparr>started_at = 1000, ticks = [1/2], page_random = 1/4, upload_date = ''1/1/2026''\<rparr>)),
      ConfirmDelete])
   = [newDoc \<lparr>file_name = ''b.pdf'', file_type = ''application/pdf'', file_size = 20\<rparr>
             \<lparr>started_at = 3000, ticks = [1/2], page_random = 1/2, upload_date = ''1/1/2026''\<rparr>]"
proof -
  let ?a = "(\<lparr>file_name = ''a.pdf'', file_type = ''application/pdf'', file_size = 10\<rparr>,
             \<lparr>started_at = 1000, ticks = [1/2], page_random = 1/4, upload_date = ''1/1/2026''\<rparr>)"
  let ?b = "(\<lparr>file_name = ''b.pdf'', file_type = ''application/pdf'', file_size = 20\<rparr>,
             \<lparr>started_at = 3000, ticks = [1/2], page_random = 1/2, upload_date = ''1/1/2026''\<rparr>)"
  have h1: "distinct (concat (map stamps [SelectFiles [?a], SelectFiles [?b]]))"
    by (simp add: selectedFiles_def)
  have h2: "documents (session [SelectFiles [?a], SelectFiles [?b]]) =
      [newDoc (fst ?b) (snd ?b)] @ newDoc (fst ?a) (snd ?a) # []"
    by (simp add: session_def handleFileSelect_def selectedFiles_def documents_uploadFile
        initial_state_def)
  show ?thesis
    using delete_in_session [OF h1 h2] by simp
qed

text \<open>
  C8, as claimed, fails where two documents share an identifier: after two uploads of files
  named \<^verbatim>\<open>a.pdf\<close> that read the same millisecond the list has two documents, and one
  request with its confirmation removes both.
\<close>

theorem delete_removes_both:
  "length (documents (session
     [SelectFiles [(\<lparr>file_name = ''a.pdf'', file_type = ''application/pdf'', file_size = 10\<rparr>,
                    \<lparr>started_at = 1000, ticks = [1/2], page_random = 1/4, upload_date = ''1/1/2026''\<rparr>)],
      SelectFiles [(\<lparr>file_name = ''a.pdf'', file_type = ''application/pdf'', file_size = 20\<rparr>,
                    \<lparr>started_at = 1000, ticks = [1/2], page_random = 1/2, upload_date = ''1/1/2026''\<rparr>)]])) = 2
   \<and> documents (session
     [SelectFiles [(\<lparr>file_name = ''a.pdf'', file_type = ''application/pdf'', file_size = 10\<rparr>,
                    \<lparr>started_at = 1000, ticks = [1/2], page_random = 1/4, upload_date = ''1/1/2026''\<rparr>)],
      SelectFiles [(\<lparr>file_name = ''a.pdf'', file_type = ''application/pdf'', file_size = 20\<rparr>,
                    \<lparr>started_at = 1000, ticks = [1/2], page_random = 1/2, upload_date = ''1/1/2026''\<rparr>)],
      RequestDelete ''a.pdf-1000'',
      ConfirmDelete]) = []"
proof -
  have "dec 1000 = ''1000''"
    by code_simp
  then show ?thesis
    by (simp add: session_def handleFileSelect_def selectedFiles_def documents_uploadFile
        initial_state_def setDeleteConfirm_def confirmDelete_def handleDeleteDocument_def
        newDoc_def fileId_def)
qed

subsection \<open>Uniqueness of the identifiers\<close>

text \<open>
  C9, as the code has it. The identifier is the file name, a dash and the reading of
  \<^verbatim>\<open>Date.now()\<close>; nothing else makes it unique. If no two uploads of a session pair the
  same file name with the same reading, the identifiers of the documents in the list are
  pairwise distinct after any sequence of selections and deletes.
\<close>

theorem ids_distinct_if_stamps_distinct:
  assumes "distinct (concat (map stamps acts))"
  shows "distinct (map doc_id (documents (session acts)))"
  using registry_ok_session [OF assms] by (simp add: registry_ok_def session_def)

theorem ids_distinct_if_stamps_distinct_witness:
  "distinct (concat (map stamps
     [SelectFiles [(\<lparr>file_name = ''a.pdf'', file_type = ''application/pdf'', file_size = 10\<rparr>,
                    \<lparr>started_at = 1000, ticks = [1/2], page_random = 1/3, upload_date = ''1/1/2026''\<rparr>)],
      RequestDelete ''a.pdf-1000'',
      SelectFiles [(\<lparr>file_name = ''a.pdf'', file_type = ''application/pdf'', file_size = 10\<rparr>,
                    \<lparr>started_at = 3000, ticks = [1/2], page_random = 1/3, upload_date = ''1/1/2026''\<rparr>)]]))
   \<and> distinct (map doc_id (documents (session
     [SelectFiles [(\<lparr>file_name = ''a.pdf'', file_type = ''application/pdf'', file_size = 10\<rparr>,
                    \<lparr>started_at = 1000, ticks = [1/2], page_random = 1/3, upload_date = ''1/1/2026''\<rparr>)],
      RequestDelete ''a.pdf-1000'',
      SelectFiles [(\<lparr>file_name = ''a.pdf'', file_type = ''application/pdf'', file_size = 10\<rparr>,
                    \<lparr>started_at = 3000, ticks = [1/2], page_random = 1/3, upload_date = ''1/1/2026''\<rparr>)]])))"
proof -
  have h: "distinct (concat (map stamps
     [SelectFiles [(\<lparr>file_name = ''a.pdf'', file_type = ''application/pdf'', file_size = 10\<rparr>,
                    \<lparr>started_at = 1000, ticks = [1/2], page_random = 1/3, upload_date = ''1/1/2026''\<rparr>)],
      RequestDelete ''a.pdf-1000'',
      SelectFiles [(\<lparr>file_name = ''a.pdf'', file_type = ''application/pdf'', file_size = 10\<rparr>,
                    \<lparr>started_at = 3000, ticks = [1/2], page_random = 1/3, upload_date = ''1/1/2026''\<rparr>)]]))"
    by (simp add: selectedFiles_def)
  show ?thesis
    using ids_distinct_if_stamps_distinct [OF h] h by blast
qed

text \<open>
  C9, as claimed, fails: two uploads of a file of the same name that read the same
  millisecond get the same identifier, and both documents are in the list. (A selection
  of several files acts on the list as the selections of its files one after the other, so
  this covers uploads that overlap in time.)
\<close>

theorem ids_collide:
  "\<not> distinct (map doc_id (documents (session
     [SelectFiles [(\<lparr>file_name = ''a.pdf'', file_type = ''application/pdf'', file_size = 10\<rparr>,
                    \<lparr>started_at = 1000, ticks = [1/2], page_random = 1/3, upload_date = ''1/1/2026''\<rparr>)],
      SelectFiles [(\<lparr>file_name = ''a.pdf'', file_type = ''application/pdf'', file_size = 10\<rparr>,
                    \<lparr>started_at = 1000, ticks = [1/2], page_random = 1/3, upload_date = ''1/1/2026''\<rparr>)]])))"
  by (simp add: session_def handleFileSelect_def selectedFiles_def documents_uploadFile newDoc_def)

subsection \<open>The follow-up list\<close>

lemma chips_total: "JNull \<notin> set cs \<Longrightarrow> \<exists>cards. chips cs = Inr cards"
proof (induction cs)
  case Nil
  then show ?case by simp
next
  case (Cons c cs)
  then obtain cards where "chips cs = Inr cards" by auto
  moreover from Cons.prems have "c \<noteq> JNull" by auto
  ultimately show ?case
    by (cases c) (simp_all add: get_prop_def)
qed

lemma follow_ups_of_response:
  assumes "follow_up_suggestions r = Some (JArr xs)" and "render_response text_to_num r = Inr d"
  shows "follow_ups d = (if xs = [] then Hidden else Shown (take 3 xs))"
  using assms
  by (auto simp: render_response_def render_follow_ups_def guarded_def gt_zero_def
      follow_up_buttons_def split: sum.splits if_splits bool.splits)

lemma response_renders:
  assumes "citations r = Some (JArr cs)" and "JNull \<notin> set cs"
    and "confidence r = Some (JNum c)" and "follow_up_suggestions r = Some (JArr xs)"
  shows "\<exists>d. render_response text_to_num r = Inr d"
proof -
  obtain cards where cards: "chips cs = Inr cards"
    using chips_total [OF assms(2)] by blast
  have src: "\<exists>x. guarded text_to_num (citations r) citation_chips = Inr x"
    using assms(1) cards by (cases cs) (simp_all add: guarded_def gt_zero_def citation_chips_def)
  have sep: "\<exists>x. guarded text_to_num (citations r) (\<lambda>c. Inr ()) = Inr x"
    using assms(1) by (cases cs) (simp_all add: guarded_def gt_zero_def)
  have pct: "\<exists>x. render_confidence text_to_num (confidence r) = Inr x"
    using assms(3) by (simp add: render_confidence_def coalesce_def)
  have fus: "\<exists>x. render_follow_ups text_to_num (follow_up_suggestions r) = Inr x"
    using assms(4)
    by (cases xs) (simp_all add: render_follow_ups_def guarded_def gt_zero_def follow_up_buttons_def)
  from src sep pct fus show ?thesis
    by (auto simp: render_response_def)
qed

text \<open>
  C6. For an agent message whose response carries \<open>n\<close> follow-up suggestions, the card
  that is rendered has \<open>min n 3\<close> follow-up buttons: the first \<open>min n 3\<close> suggestions, in
  the order of the reply (none, and no list, when \<open>n\<close> is 0). The card does render when the
  citations are an array without \<^verbatim>\<open>null\<close> and the confidence is a number, as the wire
  contract has them.
\<close>

theorem follow_ups_first_three:
  assumes agent: "msg_type m = Agent" and response: "msg_response m = Some r"
    and suggestions: "follow_up_suggestions r = Some (JArr xs)"
  shows "(\<forall>card. render_message text_to_num m = Inr card \<longrightarrow>
            (\<exists>d. card = AgentCard (msg_content m) (Some d)
               \<and> entries (follow_ups d) = take (min (length xs) 3) xs
               \<and> length (entries (follow_ups d)) = min (length xs) 3))
       \<and> (citations r = Some (JArr cs) \<and> JNull \<notin> set cs \<and> confidence r = Some (JNum c) \<longrightarrow>
            (\<exists>card. render_message text_to_num m = Inr card))"
proof (intro conjI allI impI)
  fix card
  assume card: "render_message text_to_num m = Inr card"
  then obtain d where d: "render_response text_to_num r = Inr d"
    and shape: "card = AgentCard (msg_content m) (Some d)"
    using agent response by (auto simp: render_message_def split: sum.splits)
  have "follow_ups d = (if xs = [] then Hidden else Shown (take 3 xs))"
    using suggestions d by (rule follow_ups_of_response)
  then have "entries (follow_ups d) = take (min (length xs) 3) xs"
    by (simp add: min_def)
  then show "\<exists>d. card = AgentCard (msg_content m) (Some d)
      \<and> entries (follow_ups d) = take (min (length xs) 3) xs
      \<and> length (entries (follow_ups d)) = min (length xs) 3"
    using shape by simp
next
  assume "citations r = Some (JArr cs) \<and> JNull \<notin> set cs \<and> confidence r = Some (JNum c)"
  then obtain d where "render_response text_to_num r = Inr d"
    using response_renders [of r cs c xs text_to_num] suggestions by blast
  then show "\<exists>card. render_message text_to_num m = Inr card"
    using agent response by (simp add: render_message_def)
qed

theorem follow_ups_first_three_witness:
  "\<exists>d. render_message (\<lambda>v. Inr NaN)
          (agentMessage
             (default_response\<lparr>follow_up_suggestions :=
                Some (JArr [JStr ''a'', JStr ''b'', JStr ''c'', JStr ''d'', JStr ''e''])\<rparr>)
             \<lparr>now = 9, time_string = ''10:00:01''\<rparr>)
        = Inr (AgentCard (Some (JStr fallback_answer)) (Some d))
      \<and> entries (follow_ups d) = [JStr ''a'', JStr ''b'', JStr ''c'']"
proof -
  let ?r = "default_response\<lparr>follow_up_suggestions :=
                Some (JArr [JStr ''a'', JStr ''b'', JStr ''c'', JStr ''d'', JStr ''e''])\<rparr>"
  let ?m = "agentMessage ?r \<lparr>now = 9, time_string = ''10:00:01''\<rparr>"
  have h: "msg_type ?m = Agent" "msg_response ?m = Some ?r"
    "follow_up_suggestions ?r = Some (JArr [JStr ''a'', JStr ''b'', JStr ''c'', JStr ''d'', JStr ''e''])"
    by (simp_all add: agentMessage_def)
  have shape: "citations ?r = Some (JArr []) \<and> JNull \<notin> set [] \<and> confidence ?r = Some (JNum 0)"
    by (simp add: default_response_def)
  have content: "msg_content ?m = Some (JStr fallback_answer)"
    by (simp add: agentMessage_def default_response_def)
  from follow_ups_first_three [OF h, of "\<lambda>v. Inr NaN" "[]" 0] shape
  obtain card where card: "render_message (\<lambda>v. Inr NaN) ?m = Inr card"
    by blast
  with follow_ups_first_three [OF h, of "\<lambda>v. Inr NaN" "[]" 0]
  obtain d where "card = AgentCard (msg_content ?m) (Some d)"
    and "entries (follow_ups d) = take (min (length [JStr ''a'', JStr ''b'', JStr ''c'', JStr ''d'', JStr ''e'']) 3)
           [JStr ''a'', JStr ''b'', JStr ''c'', JStr ''d'', JStr ''e'']"
    by blast
  then show ?thesis
    using card content by simp
qed

end
